theory Spec2Isabelle
  imports Complex_Main
begin

section \<open>The duck viewer block: a shallow embedding of \<open>src/block.tsx\<close>\<close>

text \<open>
  The file holds two React function components, \<open>DuckModel\<close> and \<open>Block\<close>. Their JSX is
  modelled as records of the props they pass on (CSS style objects and static captions are
  left out: they are constants that no state reaches). Their hooks are modelled as explicit
  state: \<open>useState\<close> cells and \<open>useRef\<close> cells are record fields, the \<open>useEffect\<close> of
  \<open>Block\<close> is a setup and a cleanup function on a browser state that holds the clock, the
  pending timers and the log of posted messages.
\<close>

subsection \<open>Numbers and the scene-graph object\<close>

text \<open>
  JavaScript numbers are IEEE-754 doubles. The only arithmetic of the file is
  \<open>rotation.y += delta * 0.5\<close>. Its addition, its multiplication and the value of the literal
  \<open>0.5\<close> are parameters of the model, over any type \<open>'n\<close> of numbers, so that nothing below
  rests on a law of arithmetic.
\<close>

record 'n number_ops =
  num_add :: "'n \<Rightarrow> 'n \<Rightarrow> 'n"
  num_mul :: "'n \<Rightarrow> 'n \<Rightarrow> 'n"
  num_half :: 'n

text \<open>
  The transform of a \<open>THREE.Group\<close>: position, Euler rotation and scale. (The library keeps
  the object's quaternion in step with the Euler angles; it is derived data and not a field
  here.)
\<close>

record 'n euler =
  euler_x :: 'n
  euler_y :: 'n
  euler_z :: 'n

record 'n group =
  group_position :: "'n \<times> 'n \<times> 'n"
  group_rotation :: "'n euler"
  group_scale :: "'n \<times> 'n \<times> 'n"

text \<open>
  The callback given to \<open>useFrame\<close> in \<open>DuckModel\<close>: \<open>meshRef.current\<close> is the group or null,
  \<open>autoRotate\<close> the prop captured by the closure, \<open>delta\<close> the frame's time step. It returns
  what \<open>meshRef.current\<close> holds afterwards.
\<close>

definition useFrame_callback ::
  "'n number_ops \<Rightarrow> bool \<Rightarrow> 'n \<Rightarrow> 'n group option \<Rightarrow> 'n group option" where
  "useFrame_callback ops autoRotate delta meshRef =
     (case meshRef of
        None \<Rightarrow> None
      | Some g \<Rightarrow>
          if autoRotate
          then Some (g\<lparr>group_rotation := (group_rotation g)
                 \<lparr>euler_y := num_add ops (euler_y (group_rotation g))
                                          (num_mul ops delta (num_half ops))\<rparr>\<rparr>)
          else Some g)"

subsection \<open>\<open>DuckModel\<close>: props and what it renders\<close>

text \<open>
  Numeric literals of the JSX are modelled by the decimal they spell. The three props of
  \<open>DuckModel\<close> are optional; a missing one takes the default of the parameter list.
\<close>

type_synonym vec3 = "real \<times> real \<times> real"

record duck_props =
  dp_position :: "vec3 option"
  dp_scale :: "real option"
  dp_autoRotate :: "bool option"

record duck_element =
  loader_url :: string
  element_position :: vec3
  element_scale :: real
  frame_autoRotate :: bool

definition DuckModel :: "duck_props \<Rightarrow> duck_element" where
  "DuckModel p =
     \<lparr> loader_url = ''https://content.mext.app/uploads/bae853a8-ee93-4c72-9007-d73e1df8dba9.glb'',
       element_position = (case dp_position p of None \<Rightarrow> (0, 0, 0) | Some v \<Rightarrow> v),
       element_scale = (case dp_scale p of None \<Rightarrow> 1 | Some k \<Rightarrow> k),
       frame_autoRotate = (case dp_autoRotate p of None \<Rightarrow> False | Some b \<Rightarrow> b) \<rparr>"

subsection \<open>\<open>Block\<close>: props, state and what it renders\<close>

record block_props =
  title :: "string option"
  description :: "string option"

text \<open>
  The hook cells of \<open>Block\<close>: the two \<open>useState\<close> cells, \<open>controlsRef.current\<close> (the
  \<open>OrbitControls\<close> instance of type \<open>'c\<close>, or nothing), and the \<open>timer\<close> constant that the
  effect's cleanup closure holds.
\<close>

record 'c block_state =
  autoRotate :: bool
  cameraMode :: string
  controlsRef :: "'c option"
  timer :: nat

record camera_props =
  camera_position :: vec3
  camera_fov :: real
  camera_near :: real
  camera_far :: real

record directionalLight_props =
  dl_position :: vec3
  dl_intensity :: real
  dl_castShadow :: bool
  dl_shadow_mapSize_width :: nat
  dl_shadow_mapSize_height :: nat

record pointLight_props =
  pl_position :: vec3
  pl_intensity :: real

record contactShadows_props =
  cs_position :: vec3
  cs_opacity :: real
  cs_scale :: real
  cs_blur :: real
  cs_far :: real

record orbitControls_props =
  oc_enablePan :: bool
  oc_enableZoom :: bool
  oc_enableRotate :: bool
  oc_minDistance :: real
  oc_maxDistance :: real
  oc_target :: vec3

record scene =
  ambientLight_intensity :: real
  directionalLight :: directionalLight_props
  pointLight :: pointLight_props
  environment_preset :: string
  duckModel :: duck_props
  contactShadows :: contactShadows_props
  orbitControls :: orbitControls_props

record view =
  header_title :: string
  header_description :: "string option"
  checkbox_checked :: bool
  canvas_shadows :: bool
  canvas_camera :: camera_props
  canvas_scene :: scene
  footer_text :: string

text \<open>
  The element tree \<open>Block\<close> returns. \<open>title\<close> defaults to the caption when absent;
  \<open>{description && ...}\<close> shows the paragraph for a non-empty description only.
\<close>

definition Block :: "block_props \<Rightarrow> 'c block_state \<Rightarrow> view" where
  "Block p s =
     \<lparr> header_title = (case title p of None \<Rightarrow> ''3D Duck Visualizer'' | Some t \<Rightarrow> t),
       header_description =
         (case description p of None \<Rightarrow> None | Some d \<Rightarrow> if d = [] then None else Some d),
       checkbox_checked = autoRotate s,
       canvas_shadows = True,
       canvas_camera =
         \<lparr> camera_position = (5, 5, 5), camera_fov = 50, camera_near = 0.1,
           camera_far = 1000 \<rparr>,
       canvas_scene =
         \<lparr> ambientLight_intensity = 0.4,
           directionalLight =
             \<lparr> dl_position = (10, 10, 5), dl_intensity = 1, dl_castShadow = True,
               dl_shadow_mapSize_width = 2048, dl_shadow_mapSize_height = 2048 \<rparr>,
           pointLight = \<lparr> pl_position = (- 10, - 10, - 10), pl_intensity = 0.3 \<rparr>,
           environment_preset = ''sunset'',
           duckModel =
             \<lparr> dp_position = None, dp_scale = Some 1.5, dp_autoRotate = Some (autoRotate s) \<rparr>,
           contactShadows =
             \<lparr> cs_position = (0, - 1.5, 0), cs_opacity = 0.4, cs_scale = 10, cs_blur = 2.5,
               cs_far = 4 \<rparr>,
           orbitControls =
             \<lparr> oc_enablePan = True, oc_enableZoom = True, oc_enableRotate = True,
               oc_minDistance = 2, oc_maxDistance = 20, oc_target = (0, 0, 0) \<rparr> \<rparr>,
       footer_text = ''Interactive 3D Duck Model Viewer'' \<rparr>"

subsection \<open>The browser: clock, timers, posted messages\<close>

datatype target = CurrentWindow | ParentWindow

record message =
  msg_type :: string
  msg_blockId :: string
  msg_completed :: bool

record post =
  post_target :: target
  post_data :: message
  post_origin :: string

text \<open>
  The clock counts milliseconds. \<open>timers\<close> holds the pending timeouts as pairs of an id and
  the time they are due; the only callback the file ever registers is \<open>timer_callback\<close>.
\<close>

record browser =
  now :: nat
  timers :: "(nat \<times> nat) list"
  next_timer :: nat
  posted :: "post list"

definition postMessage :: "target \<Rightarrow> message \<Rightarrow> string \<Rightarrow> browser \<Rightarrow> browser" where
  "postMessage t m targetOrigin b =
     b\<lparr>posted := posted b @ [\<lparr>post_target = t, post_data = m, post_origin = targetOrigin\<rparr>]\<rparr>"

definition setTimeout :: "nat \<Rightarrow> browser \<Rightarrow> nat \<times> browser" where
  "setTimeout delay b =
     (next_timer b,
      b\<lparr>timers := timers b @ [(next_timer b, now b + delay)],
        next_timer := Suc (next_timer b)\<rparr>)"

definition clearTimeout :: "nat \<Rightarrow> browser \<Rightarrow> browser" where
  "clearTimeout tid b = b\<lparr>timers := filter (\<lambda>(i, due). i \<noteq> tid) (timers b)\<rparr>"

text \<open>The arrow function handed to \<open>setTimeout\<close>: two posts, in the order of the source.\<close>

definition timer_callback :: "browser \<Rightarrow> browser" where
  "timer_callback b =
     postMessage ParentWindow
       \<lparr>msg_type = ''BLOCK_COMPLETION'', msg_blockId = ''685da7c487fb8b8b70d865d2'',
        msg_completed = True\<rparr> ''*''
       (postMessage CurrentWindow
          \<lparr>msg_type = ''BLOCK_COMPLETION'', msg_blockId = ''685da7c487fb8b8b70d865d2'',
           msg_completed = True\<rparr> ''*'' b)"

text \<open>
  Time passing: the clock moves on by \<open>dt\<close>, every timer that is due leaves the table and
  its callback runs.
\<close>

definition fire_due_timers :: "browser \<Rightarrow> browser" where
  "fire_due_timers b =
     fold (\<lambda>_. timer_callback) (filter (\<lambda>(i, due). due \<le> now b) (timers b))
       (b\<lparr>timers := filter (\<lambda>(i, due). now b < due) (timers b)\<rparr>)"

definition advance :: "nat \<Rightarrow> browser \<Rightarrow> browser" where
  "advance dt b = fire_due_timers (b\<lparr>now := now b + dt\<rparr>)"

text \<open>
  The rule by which the platform hands a posted message to its receiver: the target origin
  is the wildcard or it is the receiver's own origin. \<open>received\<close> lists what a context gets
  from a log of posts, given the origin of each context.
\<close>

definition origin_accepts :: "string \<Rightarrow> string \<Rightarrow> bool" where
  "origin_accepts targetOrigin receiver = (targetOrigin = ''*'' \<or> targetOrigin = receiver)"

definition received :: "(target \<Rightarrow> string) \<Rightarrow> target \<Rightarrow> post list \<Rightarrow> message list" where
  "received origins t ps =
     map post_data
       (filter (\<lambda>m. post_target m = t \<and> origin_accepts (post_origin m) (origins t)) ps)"

subsection \<open>The effect and the handlers of \<open>Block\<close>\<close>

text \<open>
  \<open>useEffect(() => { const timer = setTimeout(..., 1000); return () => clearTimeout(timer) }, [])\<close>:
  the setup returns the timer, which the cleanup takes; the dependency list is empty.
\<close>

definition useEffect_setup :: "browser \<Rightarrow> nat \<times> browser" where
  "useEffect_setup b = setTimeout 1000 b"

definition useEffect_cleanup :: "nat \<Rightarrow> browser \<Rightarrow> browser" where
  "useEffect_cleanup t b = clearTimeout t b"

datatype dep = DepBool bool | DepString string

definition useEffect_deps :: "block_props \<Rightarrow> 'c block_state \<Rightarrow> dep list" where
  "useEffect_deps p s = []"

definition setAutoRotate :: "bool \<Rightarrow> 'c block_state \<Rightarrow> 'c block_state" where
  "setAutoRotate b s = s\<lparr>autoRotate := b\<rparr>"

text \<open>The \<open>onChange\<close> of the checkbox, given \<open>e.target.checked\<close>.\<close>

definition checkbox_onChange :: "bool \<Rightarrow> 'c block_state \<Rightarrow> 'c block_state" where
  "checkbox_onChange checked s = setAutoRotate checked s"

text \<open>
  A method call on a reference that holds nothing is a \<open>TypeError\<close> in JavaScript;
  \<open>call_reset\<close> is the member call \<open>controlsRef.current.reset()\<close>, with the library's
  \<open>reset\<close> method as the parameter \<open>reset\<close>. \<open>resetCamera\<close> guards the call as the source does.
\<close>

datatype fault = TypeError

definition call_reset :: "('c \<Rightarrow> 'c) \<Rightarrow> 'c option \<Rightarrow> fault + 'c option" where
  "call_reset reset r = (case r of None \<Rightarrow> Inl TypeError | Some c \<Rightarrow> Inr (Some (reset c)))"

definition resetCamera :: "('c \<Rightarrow> 'c) \<Rightarrow> 'c block_state \<Rightarrow> fault + 'c block_state" where
  "resetCamera reset s =
     (case controlsRef s of
        Some c \<Rightarrow>
          (case call_reset reset (controlsRef s) of
             Inl e \<Rightarrow> Inl e
           | Inr r \<Rightarrow> Inr (s\<lparr>controlsRef := r\<rparr>))
      | None \<Rightarrow> Inr s)"

subsection \<open>The life of one mounted instance\<close>

record 'c system =
  props :: block_props
  block :: "'c block_state"
  browser :: browser
  mounted :: bool
  assetLoaded :: bool

text \<open>
  Mounting at clock time \<open>t0\<close>: the state cells take their initial values, the reference is
  empty until the library attaches the controls, the asset is not loaded yet, and the effect
  runs once.
\<close>

definition mount :: "block_props \<Rightarrow> nat \<Rightarrow> 'c system" where
  "mount p t0 =
     (let (t, b) = useEffect_setup \<lparr>now = t0, timers = [], next_timer = 1, posted = []\<rparr>
      in \<lparr> props = p,
           block = \<lparr>autoRotate = True, cameraMode = ''orbit'', controlsRef = None, timer = t\<rparr>,
           browser = b, mounted = True, assetLoaded = False \<rparr>)"

text \<open>
  After a render React compares the effect's dependency list with that of the render
  before; only when they differ does it run the cleanup and the setup again.
\<close>

definition commit :: "'c system \<Rightarrow> 'c system \<Rightarrow> 'c system" where
  "commit old new =
     (if useEffect_deps (props old) (block old) = useEffect_deps (props new) (block new)
      then new
      else (let (t, b) = useEffect_setup (useEffect_cleanup (timer (block new)) (browser new))
            in new\<lparr>block := (block new)\<lparr>timer := t\<rparr>, browser := b\<rparr>))"

text \<open>
  What can happen to a mounted instance: time passes, the user changes the checkbox or
  clicks the button, the library sets what \<open>controlsRef.current\<close> holds, the parent renders
  the block with other props, the asset finishes loading, the block is unmounted. A fault in
  an event handler leaves the state as it was. Nothing but the clock and its timers goes on
  after the unmount.
\<close>

datatype 'c event =
    Advance nat
  | CheckboxChange bool
  | ClickReset
  | ControlsRefSet "'c option"
  | Rerender block_props
  | AssetLoaded
  | Unmount

fun step :: "('c \<Rightarrow> 'c) \<Rightarrow> 'c event \<Rightarrow> 'c system \<Rightarrow> 'c system" where
  "step reset (Advance dt) s = s\<lparr>browser := advance dt (browser s)\<rparr>"
| "step reset (CheckboxChange checked) s =
     (if mounted s then commit s (s\<lparr>block := checkbox_onChange checked (block s)\<rparr>) else s)"
| "step reset ClickReset s =
     (if mounted s
      then (case resetCamera reset (block s) of Inl e \<Rightarrow> s | Inr b \<Rightarrow> s\<lparr>block := b\<rparr>)
      else s)"
| "step reset (ControlsRefSet r) s =
     (if mounted s then s\<lparr>block := (block s)\<lparr>controlsRef := r\<rparr>\<rparr> else s)"
| "step reset (Rerender p) s = (if mounted s then commit s (s\<lparr>props := p\<rparr>) else s)"
| "step reset AssetLoaded s = s\<lparr>assetLoaded := True\<rparr>"
| "step reset Unmount s =
     (if mounted s
      then s\<lparr>browser := useEffect_cleanup (timer (block s)) (browser s), mounted := False\<rparr>
      else s)"

fun run :: "('c \<Rightarrow> 'c) \<Rightarrow> 'c event list \<Rightarrow> 'c system \<Rightarrow> 'c system" where
  "run reset [] s = s"
| "run reset (e # es) s = run reset es (step reset e s)"

text \<open>The time that passes in a list of events.\<close>

fun elapsed :: "'c event list \<Rightarrow> nat" where
  "elapsed [] = 0"
| "elapsed (Advance dt # es) = dt + elapsed es"
| "elapsed (e # es) = elapsed es"

subsection \<open>Phases of an instance's life\<close>

text \<open>
  \<open>pending due s\<close>: the instance is mounted, its one timer waits for \<open>due\<close>, nothing has
  been posted. \<open>completion_posts\<close> is the log after the callback has run once.
  \<open>lifecycle due s\<close> lists the three phases an instance can be in: waiting, cancelled,
  done.
\<close>

definition pending :: "nat \<Rightarrow> 'c system \<Rightarrow> bool" where
  "pending due s \<longleftrightarrow>
     mounted s \<and> timers (browser s) = [(timer (block s), due)] \<and> posted (browser s) = []"

definition completion_posts :: "post list" where
  "completion_posts =
     [\<lparr>post_target = CurrentWindow,
       post_data = \<lparr>msg_type = ''BLOCK_COMPLETION'', msg_blockId = ''685da7c487fb8b8b70d865d2'',
                    msg_completed = True\<rparr>,
       post_origin = ''*''\<rparr>,
      \<lparr>post_target = ParentWindow,
       post_data = \<lparr>msg_type = ''BLOCK_COMPLETION'', msg_blockId = ''685da7c487fb8b8b70d865d2'',
                    msg_completed = True\<rparr>,
       post_origin = ''*''\<rparr>]"

definition lifecycle :: "nat \<Rightarrow> 'c system \<Rightarrow> bool" where
  "lifecycle due s \<longleftrightarrow>
     pending due s \<and> now (browser s) < due
     \<or> timers (browser s) = [] \<and> posted (browser s) = []
     \<or> timers (browser s) = [] \<and> posted (browser s) = completion_posts \<and> due \<le> now (browser s)"

section \<open>Properties\<close>

subsection \<open>Events, clock and timers\<close>

lemma run_append: "run reset (xs @ ys) s = run reset ys (run reset xs s)"
  by (induction xs arbitrary: s) simp_all

lemma elapsed_append: "elapsed (xs @ ys) = elapsed xs + elapsed ys"
  by (induction xs rule: elapsed.induct) simp_all

lemma commit_new: "commit old new = new"
  by (simp add: commit_def useEffect_deps_def)

lemma step_browser_cases:
  "browser (step reset e s) =
     (case e of Advance dt \<Rightarrow> advance dt (browser s)
      | Unmount \<Rightarrow> (if mounted s then clearTimeout (timer (block s)) (browser s) else browser s)
      | _ \<Rightarrow> browser s)"
  by (cases e) (simp_all add: commit_new useEffect_cleanup_def split: sum.splits)

lemma advance_idle:
  "timers b = [] \<Longrightarrow> timers (advance dt b) = [] \<and> posted (advance dt b) = posted b"
  by (simp add: advance_def fire_due_timers_def)

lemma clearTimeout_idle:
  "timers b = [] \<Longrightarrow> timers (clearTimeout t b) = [] \<and> posted (clearTimeout t b) = posted b"
  by (simp add: clearTimeout_def)

lemma step_idle:
  "timers (browser s) = [] \<Longrightarrow>
     timers (browser (step reset e s)) = [] \<and> posted (browser (step reset e s)) = posted (browser s)"
  by (simp add: step_browser_cases advance_idle clearTimeout_idle split: event.splits)

lemma run_idle:
  "timers (browser s) = [] \<Longrightarrow>
     timers (browser (run reset es s)) = [] \<and> posted (browser (run reset es s)) = posted (browser s)"
proof (induction es arbitrary: s)
  case Nil
  then show ?case by simp
next
  case (Cons e es)
  from step_idle [OF Cons.prems, of reset e]
  have t: "timers (browser (step reset e s)) = []"
    and p: "posted (browser (step reset e s)) = posted (browser s)" by simp_all
  from Cons.IH [OF t] p show ?case by simp
qed

lemma now_advance: "now (advance dt b) = now b + dt"
proof -
  have "now (fold (\<lambda>_. timer_callback) xs c) = now c" for xs :: "(nat \<times> nat) list" and c
    by (induction xs arbitrary: c) (simp_all add: timer_callback_def postMessage_def)
  then show ?thesis by (simp add: advance_def fire_due_timers_def)
qed

lemma now_step:
  "now (browser (step reset e s)) = now (browser s) + elapsed [e]"
  by (simp add: step_browser_cases now_advance clearTimeout_def split: event.splits)

lemma now_run: "now (browser (run reset es s)) = now (browser s) + elapsed es"
proof (induction es arbitrary: s)
  case Nil
  then show ?case by simp
next
  case (Cons e es)
  have "elapsed (e # es) = elapsed [e] + elapsed es" by (cases e) simp_all
  with Cons.IH [of "step reset e s"] now_step [of reset e s] show ?case by simp
qed

lemma advance_early:
  "timers b = [(t, due)] \<Longrightarrow> now b + dt < due \<Longrightarrow>
     timers (advance dt b) = [(t, due)] \<and> posted (advance dt b) = posted b"
  by (simp add: advance_def fire_due_timers_def)

lemma advance_fire:
  "timers b = [(t, due)] \<Longrightarrow> due \<le> now b + dt \<Longrightarrow>
     timers (advance dt b) = [] \<and> posted (advance dt b) = posted (timer_callback b)"
  by (simp add: advance_def fire_due_timers_def timer_callback_def postMessage_def)

lemma step_pending:
  assumes "pending due s" and "e \<noteq> Unmount"
    and "now (browser s) + elapsed [e] < due"
  shows "pending due (step reset e s)"
proof (cases e)
  case (Advance dt)
  with assms advance_early [of "browser s" "timer (block s)" due dt]
  show ?thesis by (simp add: pending_def)
next
  case ClickReset
  with assms show ?thesis
    by (simp add: pending_def resetCamera_def call_reset_def split: option.splits)
qed (use assms in \<open>simp_all add: pending_def commit_new checkbox_onChange_def setAutoRotate_def\<close>)

lemma step_pending_fire:
  assumes "pending due s" and "due \<le> now (browser s) + dt"
  shows "timers (browser (step reset (Advance dt) s)) = []"
    and "posted (browser (step reset (Advance dt) s)) = posted (timer_callback (browser s))"
  using assms advance_fire [of "browser s" "timer (block s)" due dt]
  by (simp_all add: pending_def)

lemma step_pending_unmount:
  assumes "pending due s"
  shows "timers (browser (step reset Unmount s)) = []"
    and "posted (browser (step reset Unmount s)) = []"
  using assms by (simp_all add: pending_def useEffect_cleanup_def clearTimeout_def)

lemma callback_posts: "posted b = [] \<Longrightarrow> posted (timer_callback b) = completion_posts"
  by (simp add: timer_callback_def postMessage_def completion_posts_def)

lemma mount_pending: "pending (t0 + 1000) (mount p t0)" "now (browser (mount p t0)) = t0"
  by (simp_all add: mount_def useEffect_setup_def setTimeout_def pending_def)

lemma run_pending_early:
  "pending due s \<Longrightarrow> Unmount \<notin> set es \<Longrightarrow> now (browser s) + elapsed es < due \<Longrightarrow>
     pending due (run reset es s)"
proof (induction es arbitrary: s)
  case Nil
  then show ?case by simp
next
  case (Cons e es)
  have el: "elapsed (e # es) = elapsed [e] + elapsed es" by (cases e) simp_all
  from Cons.prems el have "pending due (step reset e s)"
    by (intro step_pending) auto
  moreover from Cons.prems el now_step [of reset e s]
  have "now (browser (step reset e s)) + elapsed es < due" by simp
  ultimately show ?case using Cons.IH Cons.prems by simp
qed

lemma run_pending_fired:
  "pending due s \<Longrightarrow> Unmount \<notin> set es \<Longrightarrow> due \<le> now (browser s) + elapsed es \<Longrightarrow>
     now (browser s) < due \<Longrightarrow>
     timers (browser (run reset es s)) = [] \<and> posted (browser (run reset es s)) = completion_posts"
proof (induction es arbitrary: s)
  case Nil
  then show ?case by simp
next
  case (Cons e es)
  have el: "elapsed (e # es) = elapsed [e] + elapsed es" by (cases e) simp_all
  show ?case
  proof (cases "due \<le> now (browser s) + elapsed [e]")
    case True
    then obtain dt where e: "e = Advance dt" by (cases e) (use Cons.prems in simp_all)
    from Cons.prems have "posted (browser s) = []" by (simp add: pending_def)
    with step_pending_fire [OF Cons.prems(1), of dt reset] True e callback_posts
    have "timers (browser (step reset e s)) = []"
      and "posted (browser (step reset e s)) = completion_posts" by simp_all
    with run_idle [of "step reset e s" reset es] show ?thesis by simp
  next
    case False
    with Cons.prems have "pending due (step reset e s)"
      by (intro step_pending) auto
    moreover from Cons.prems el now_step [of reset e s]
    have "due \<le> now (browser (step reset e s)) + elapsed es" by simp
    moreover from False now_step [of reset e s]
    have "now (browser (step reset e s)) < due" by simp
    ultimately show ?thesis using Cons.IH Cons.prems by simp
  qed
qed

lemma step_lifecycle: "lifecycle due s \<Longrightarrow> lifecycle due (step reset e s)"
proof -
  assume l: "lifecycle due s"
  show ?thesis
  proof (cases "timers (browser s) = []")
    case True
    with l step_idle [of s reset e] now_step [of reset e s] show ?thesis
      by (auto simp: lifecycle_def pending_def)
  next
    case False
    with l have p: "pending due s" and n: "now (browser s) < due"
      by (auto simp: lifecycle_def)
    show ?thesis
    proof (cases "e = Unmount")
      case True
      with step_pending_unmount [OF p, of reset] show ?thesis by (simp add: lifecycle_def)
    next
      case nu: False
      show ?thesis
      proof (cases "due \<le> now (browser s) + elapsed [e]")
        case True
        then obtain dt where e: "e = Advance dt" by (cases e) (use n in simp_all)
        from p have "posted (browser s) = []" by (simp add: pending_def)
        with step_pending_fire [OF p, of dt reset] True e callback_posts now_step [of reset e s]
        show ?thesis by (simp add: lifecycle_def)
      next
        case False
        with step_pending [OF p nu, of reset] now_step [of reset e s]
        show ?thesis by (simp add: lifecycle_def)
      qed
    qed
  qed
qed

lemma run_lifecycle: "lifecycle due s \<Longrightarrow> lifecycle due (run reset es s)"
  by (induction es arbitrary: s) (simp_all add: step_lifecycle)

lemma mount_lifecycle: "lifecycle (t0 + 1000) (run reset es (mount p t0))"
  by (intro run_lifecycle) (simp add: lifecycle_def mount_pending)

lemma run_early_quiet:
  assumes "elapsed es < 1000"
  shows "posted (browser (run reset es (mount p t0))) = []"
proof -
  have "now (browser (run reset es (mount p t0))) < t0 + 1000"
    using assms by (simp add: now_run mount_pending)
  moreover have "lifecycle (t0 + 1000) (run reset es (mount p t0))"
    by (rule mount_lifecycle)
  ultimately show ?thesis by (auto simp: lifecycle_def pending_def)
qed

subsection \<open>The completion notification\<close>

text \<open>
  C1. Take any mount and any run of events in which at least 1000 ms pass before the first
  unmount (\<open>pre\<close>), followed by anything at all (\<open>post\<close>). The log of posted messages is then
  exactly two posts of the one fixed notification object, the first to the current window
  and the second to the parent. With \<open>post = []\<close> this says the posts are there as soon as
  the 1000 ms have passed.
\<close>

theorem mount_posts_completion_once:
  assumes "Unmount \<notin> set pre" and "1000 \<le> elapsed pre"
  shows "posted (browser (run reset (pre @ post) (mount p t0))) =
           [\<lparr>post_target = CurrentWindow,
             post_data = \<lparr>msg_type = ''BLOCK_COMPLETION'',
                          msg_blockId = ''685da7c487fb8b8b70d865d2'', msg_completed = True\<rparr>,
             post_origin = ''*''\<rparr>,
            \<lparr>post_target = ParentWindow,
             post_data = \<lparr>msg_type = ''BLOCK_COMPLETION'',
                          msg_blockId = ''685da7c487fb8b8b70d865d2'', msg_completed = True\<rparr>,
             post_origin = ''*''\<rparr>]"
proof -
  let ?s = "run reset pre (mount p t0)"
  from assms have "timers (browser ?s) = [] \<and> posted (browser ?s) = completion_posts"
    by (intro run_pending_fired [where due = "t0 + 1000"]) (simp_all add: mount_pending)
  with run_idle [of ?s reset post] show ?thesis
    by (simp add: run_append completion_posts_def)
qed

theorem mount_posts_completion_once_witness:
  "posted (browser (run (\<lambda>c::unit. c)
      ([Advance 400, CheckboxChange False, AssetLoaded, Advance 600] @ [ClickReset, Unmount, Advance 5000])
      (mount \<lparr>title = None, description = None\<rparr> 0))) =
           [\<lparr>post_target = CurrentWindow,
             post_data = \<lparr>msg_type = ''BLOCK_COMPLETION'',
                          msg_blockId = ''685da7c487fb8b8b70d865d2'', msg_completed = True\<rparr>,
             post_origin = ''*''\<rparr>,
            \<lparr>post_target = ParentWindow,
             post_data = \<lparr>msg_type = ''BLOCK_COMPLETION'',
                          msg_blockId = ''685da7c487fb8b8b70d865d2'', msg_completed = True\<rparr>,
             post_origin = ''*''\<rparr>]"
  using mount_posts_completion_once
    [of "[Advance 400, CheckboxChange False, AssetLoaded, Advance 600]"
        "\<lambda>c::unit. c" "[ClickReset, Unmount, Advance 5000]" "\<lparr>title = None, description = None\<rparr>" 0]
  by simp

text \<open>
  C2. If the block is unmounted when less than 1000 ms have passed since the mount, nothing
  is ever posted, whatever happens afterwards, and no timer is left. Up to the unmount the
  timer table held exactly the instance's timer, so it is the cleanup that removes it.
\<close>

theorem unmount_before_delay_suppresses:
  assumes "elapsed pre < 1000"
  shows "posted (browser (run reset (pre @ Unmount # post) (mount p t0))) = []
         \<and> timers (browser (run reset (pre @ Unmount # post) (mount p t0))) = []
         \<and> (Unmount \<notin> set pre \<longrightarrow>
              timers (browser (run reset pre (mount p t0))) =
                [(timer (block (run reset pre (mount p t0))), t0 + 1000)])"
proof -
  let ?s = "run reset pre (mount p t0)"
  have n: "now (browser ?s) < t0 + 1000"
    using assms by (simp add: now_run mount_pending)
  have l: "lifecycle (t0 + 1000) ?s" by (rule mount_lifecycle)
  have "timers (browser (step reset Unmount ?s)) = [] \<and> posted (browser (step reset Unmount ?s)) = []"
  proof (cases "timers (browser ?s) = []")
    case True
    with l n step_idle [of ?s reset Unmount] show ?thesis
      by (auto simp: lifecycle_def pending_def)
  next
    case False
    with l have "pending (t0 + 1000) ?s" by (auto simp: lifecycle_def)
    from step_pending_unmount [OF this, of reset] show ?thesis by simp
  qed
  with run_idle [of "step reset Unmount ?s" reset post]
  have a: "posted (browser (run reset (pre @ Unmount # post) (mount p t0))) = []"
    and b: "timers (browser (run reset (pre @ Unmount # post) (mount p t0))) = []"
    by (simp_all add: run_append)
  have c: "timers (browser ?s) = [(timer (block ?s), t0 + 1000)]" if "Unmount \<notin> set pre"
  proof -
    from that assms have "pending (t0 + 1000) ?s"
      by (intro run_pending_early) (simp_all add: mount_pending)
    then show ?thesis by (simp add: pending_def)
  qed
  from a b c show ?thesis by blast
qed

theorem unmount_before_delay_suppresses_witness:
  "posted (browser (run (\<lambda>c::unit. c) ([Advance 999] @ Unmount # [Advance 5000])
      (mount \<lparr>title = None, description = None\<rparr> 0))) = []
   \<and> timers (browser (run (\<lambda>c::unit. c) [Advance 999]
      (mount \<lparr>title = None, description = None\<rparr> 0))) = [(1, 1000)]"
  using unmount_before_delay_suppresses
    [of "[Advance 999]" "\<lambda>c::unit. c" "[Advance 5000]" "\<lparr>title = None, description = None\<rparr>" 0]
  by (simp add: mount_def useEffect_setup_def setTimeout_def)

subsection \<open>Facts shared by the claims below\<close>

lemma step_cameraMode: "cameraMode (block (step reset e s)) = cameraMode (block s)"
  by (cases e)
     (simp_all add: commit_new checkbox_onChange_def setAutoRotate_def resetCamera_def
        call_reset_def split: option.splits)

lemma run_cameraMode: "cameraMode (block (run reset es s)) = cameraMode (block s)"
  by (induction es arbitrary: s) (simp_all add: step_cameraMode)

lemma mount_posted_cases:
  "posted (browser (run reset es (mount p t0))) = [] \<or>
   timers (browser (run reset es (mount p t0))) = [] \<and>
   posted (browser (run reset es (mount p t0))) = completion_posts"
  using mount_lifecycle [of t0 reset es p] by (auto simp: lifecycle_def pending_def)

subsection \<open>The auto-rotate checkbox\<close>

text \<open>
  C3. A change of the checkbox on a mounted instance replaces the \<open>autoRotate\<close> cell by the
  box's new value and leaves the rest of the system as it was: \<open>cameraMode\<close>, the controls
  reference, the timer, the props, the browser's clock, timers and posted messages. In what
  \<open>Block\<close> renders, the scene differs in the \<open>autoRotate\<close> prop of \<open>DuckModel\<close> and in nothing
  else; outside the scene only the box's own \<open>checked\<close> attribute follows the cell.
\<close>

theorem toggle_changes_only_autoRotate:
  "step reset (CheckboxChange b) s =
     (if mounted s then s\<lparr>block := (block s)\<lparr>autoRotate := b\<rparr>\<rparr> else s)
   \<and> Block p ((block s)\<lparr>autoRotate := b\<rparr>) =
       (Block p (block s))
         \<lparr>checkbox_checked := b,
          canvas_scene := (canvas_scene (Block p (block s)))
            \<lparr>duckModel := (duckModel (canvas_scene (Block p (block s))))
               \<lparr>dp_autoRotate := Some b\<rparr>\<rparr>\<rparr>"
  by (simp add: commit_new checkbox_onChange_def setAutoRotate_def Block_def)

theorem toggle_changes_only_autoRotate_witness:
  "block (step (\<lambda>c::unit. c) (CheckboxChange False) (mount \<lparr>title = None, description = None\<rparr> 0)) =
     \<lparr>autoRotate = False, cameraMode = ''orbit'', controlsRef = None, timer = 1\<rparr>
   \<and> browser (step (\<lambda>c::unit. c) (CheckboxChange False) (mount \<lparr>title = None, description = None\<rparr> 0)) =
     \<lparr>now = 0, timers = [(1, 1000)], next_timer = 2, posted = []\<rparr>"
  using toggle_changes_only_autoRotate
    [of "\<lambda>c::unit. c" False "mount \<lparr>title = None, description = None\<rparr> 0"]
  by (simp add: mount_def useEffect_setup_def setTimeout_def)

subsection \<open>The reset button\<close>

text \<open>
  C4. With nothing in \<open>controlsRef.current\<close>, \<open>resetCamera\<close> returns the state it was given,
  whatever the library's \<open>reset\<close> is, and a click on the button leaves the whole system as
  it was. With an instance attached, \<open>reset\<close> is applied to that instance and nothing else
  changes. In no case does \<open>resetCamera\<close> end in a fault.
\<close>

theorem resetCamera_null_noop:
  "(controlsRef bs = None \<longrightarrow>
      resetCamera reset bs = Inr bs \<and> resetCamera reset' bs = resetCamera reset bs)
   \<and> (controlsRef (block s) = None \<longrightarrow> step reset ClickReset s = s)
   \<and> (\<forall>c. controlsRef bs = Some c \<longrightarrow>
         resetCamera reset bs = Inr (bs\<lparr>controlsRef := Some (reset c)\<rparr>))
   \<and> (\<forall>e. resetCamera reset bs \<noteq> Inl e)"
  by (auto simp: resetCamera_def call_reset_def split: option.splits)

theorem resetCamera_null_noop_witness:
  "step Suc ClickReset (mount \<lparr>title = None, description = None\<rparr> 0) =
     mount \<lparr>title = None, description = None\<rparr> 0
   \<and> resetCamera Suc \<lparr>autoRotate = True, cameraMode = ''orbit'', controlsRef = None, timer = 1\<rparr> =
       Inr \<lparr>autoRotate = True, cameraMode = ''orbit'', controlsRef = None, timer = 1\<rparr>
   \<and> resetCamera (\<lambda>c. 0) \<lparr>autoRotate = True, cameraMode = ''orbit'', controlsRef = Some (7::nat), timer = 1\<rparr> =
       Inr \<lparr>autoRotate = True, cameraMode = ''orbit'', controlsRef = Some 0, timer = 1\<rparr>"
  using resetCamera_null_noop
    [of "\<lparr>autoRotate = True, cameraMode = ''orbit'', controlsRef = None, timer = 1\<rparr>" Suc Suc
        "mount \<lparr>title = None, description = None\<rparr> 0"]
    resetCamera_null_noop
    [of "\<lparr>autoRotate = True, cameraMode = ''orbit'', controlsRef = Some (7::nat), timer = 1\<rparr>"
        "\<lambda>c. 0" "\<lambda>c. 0" "mount \<lparr>title = None, description = None\<rparr> 0"]
  by (simp add: mount_def useEffect_setup_def setTimeout_def)

subsection \<open>The asset URL\<close>

text \<open>
  C5. Whatever props \<open>DuckModel\<close> gets, the URL it hands to the loader is the one constant;
  so any two runs of \<open>Block\<close>, with any props and any events, ask for the same URL.
\<close>

theorem asset_url_fixed:
  "loader_url (DuckModel dp) =
     ''https://content.mext.app/uploads/bae853a8-ee93-4c72-9007-d73e1df8dba9.glb''
   \<and> loader_url (DuckModel (duckModel (canvas_scene
         (Block (props (run reset evs (mount p t0))) (block (run reset evs (mount p t0))))))) =
     loader_url (DuckModel (duckModel (canvas_scene
         (Block (props (run reset' evs' (mount p' t0'))) (block (run reset' evs' (mount p' t0')))))))"
  by (simp add: DuckModel_def)

theorem asset_url_fixed_witness:
  "loader_url (DuckModel (duckModel (canvas_scene
         (Block (props (run (\<lambda>c::unit. c) [Rerender \<lparr>title = Some ''x'', description = Some ''http://evil.example/a.glb''\<rparr>, CheckboxChange False]
              (mount \<lparr>title = None, description = None\<rparr> 0)))
            (block (run (\<lambda>c::unit. c) [Rerender \<lparr>title = Some ''x'', description = Some ''http://evil.example/a.glb''\<rparr>, CheckboxChange False]
              (mount \<lparr>title = None, description = None\<rparr> 0))))))) =
     ''https://content.mext.app/uploads/bae853a8-ee93-4c72-9007-d73e1df8dba9.glb''"
  by (rule asset_url_fixed [THEN conjunct1])


subsection \<open>The notification does not depend on what else happens\<close>

lemma mount_unmount_free:
  assumes "Unmount \<notin> set es"
  shows "posted (browser (run reset es (mount p t0))) =
           (if elapsed es < 1000 then [] else completion_posts)"
proof (cases "elapsed es < 1000")
  case True
  then show ?thesis by (simp add: run_early_quiet)
next
  case False
  with assms have "timers (browser (run reset es (mount p t0))) = [] \<and>
      posted (browser (run reset es (mount p t0))) = completion_posts"
    by (intro run_pending_fired [where due = "t0 + 1000"]) (simp_all add: mount_pending)
  with False show ?thesis by simp
qed

text \<open>
  C6, as stated, fails: a mount that is unmounted 500 ms after it began posts nothing, not
  once.
\<close>

theorem early_unmount_posts_nothing:
  "posted (browser (run (\<lambda>c::unit. c) [Advance 500, Unmount, Advance 5000]
       (mount \<lparr>title = None, description = None\<rparr> 0))) = []"
  by (simp add: mount_def useEffect_setup_def setTimeout_def advance_def fire_due_timers_def
        useEffect_cleanup_def clearTimeout_def)

text \<open>
  C6, amended. In a run without unmount the log is a function of the time that has passed
  and of nothing else: empty below 1000 ms, the two fixed posts from then on, whatever the
  props, the checkbox changes, the clicks, the state of the asset, the re-renders. Once
  something has been posted, nothing that follows adds to the log. The dependency list of
  the effect is empty in every state.
\<close>

theorem completion_once_unless_unmounted:
  "(Unmount \<notin> set evs \<longrightarrow>
      posted (browser (run reset evs (mount p t0))) =
        (if elapsed evs < 1000 then []
         else [\<lparr>post_target = CurrentWindow,
                post_data = \<lparr>msg_type = ''BLOCK_COMPLETION'',
                             msg_blockId = ''685da7c487fb8b8b70d865d2'', msg_completed = True\<rparr>,
                post_origin = ''*''\<rparr>,
               \<lparr>post_target = ParentWindow,
                post_data = \<lparr>msg_type = ''BLOCK_COMPLETION'',
                             msg_blockId = ''685da7c487fb8b8b70d865d2'', msg_completed = True\<rparr>,
                post_origin = ''*''\<rparr>]))
   \<and> (posted (browser (run reset evs (mount p t0))) \<noteq> [] \<longrightarrow>
        posted (browser (run reset (evs @ later) (mount p t0))) =
        posted (browser (run reset evs (mount p t0))))
   \<and> useEffect_deps (props (run reset evs (mount p t0))) (block (run reset evs (mount p t0))) = []"
proof -
  let ?s = "run reset evs (mount p t0)"
  have a: "posted (browser ?s) = (if elapsed evs < 1000 then [] else completion_posts)"
    if "Unmount \<notin> set evs"
    using that by (rule mount_unmount_free)
  have c: "posted (browser (run reset (evs @ later) (mount p t0))) = posted (browser ?s)"
    if "posted (browser ?s) \<noteq> []"
  proof -
    from that mount_posted_cases [of reset evs p t0] have "timers (browser ?s) = []" by blast
    from run_idle [OF this, of reset later] show ?thesis by (simp add: run_append)
  qed
  have d: "useEffect_deps (props ?s) (block ?s) = []" by (simp add: useEffect_deps_def)
  from a c d show ?thesis unfolding completion_posts_def by blast
qed

theorem completion_once_unless_unmounted_witness:
  "posted (browser (run (\<lambda>c::unit. c)
       [CheckboxChange False, Advance 700, AssetLoaded, ClickReset, Advance 700,
        Rerender \<lparr>title = Some ''t'', description = None\<rparr>]
       (mount \<lparr>title = None, description = None\<rparr> 0))) =
     [\<lparr>post_target = CurrentWindow,
       post_data = \<lparr>msg_type = ''BLOCK_COMPLETION'',
                    msg_blockId = ''685da7c487fb8b8b70d865d2'', msg_completed = True\<rparr>,
       post_origin = ''*''\<rparr>,
      \<lparr>post_target = ParentWindow,
       post_data = \<lparr>msg_type = ''BLOCK_COMPLETION'',
                    msg_blockId = ''685da7c487fb8b8b70d865d2'', msg_completed = True\<rparr>,
       post_origin = ''*''\<rparr>]
   \<and> posted (browser (run (\<lambda>c::unit. c)
       ([CheckboxChange False, Advance 700, AssetLoaded, ClickReset, Advance 700,
        Rerender \<lparr>title = Some ''t'', description = None\<rparr>] @ [Advance 1000, Unmount, Advance 1000])
       (mount \<lparr>title = None, description = None\<rparr> 0))) =
     posted (browser (run (\<lambda>c::unit. c)
       [CheckboxChange False, Advance 700, AssetLoaded, ClickReset, Advance 700,
        Rerender \<lparr>title = Some ''t'', description = None\<rparr>]
       (mount \<lparr>title = None, description = None\<rparr> 0)))"
  using completion_once_unless_unmounted
    [of "[CheckboxChange False, Advance 700, AssetLoaded, ClickReset, Advance 700,
        Rerender \<lparr>title = Some ''t'', description = None\<rparr>]"
        "\<lambda>c::unit. c" "\<lparr>title = None, description = None\<rparr>" 0
        "[Advance 1000, Unmount, Advance 1000]"]
  by simp

subsection \<open>The camera mode\<close>

text \<open>
  C7. \<open>cameraMode\<close> is \<open>orbit\<close> after any run from a mount. It is never read: what \<open>Block\<close>
  renders is the same for every value of the cell, and each event does to a system with
  another value in the cell what it does to the system itself, the cell keeping that value.
\<close>

theorem cameraMode_constant_unread:
  "cameraMode (block (run reset evs (mount p t0))) = ''orbit''
   \<and> Block p' (bs\<lparr>cameraMode := m\<rparr>) = Block p' bs
   \<and> step reset e (s\<lparr>block := (block s)\<lparr>cameraMode := m\<rparr>\<rparr>) =
       (step reset e s)\<lparr>block := (block (step reset e s))\<lparr>cameraMode := m\<rparr>\<rparr>"
proof -
  have a: "cameraMode (block (run reset evs (mount p t0))) = ''orbit''"
    by (simp add: run_cameraMode mount_def useEffect_setup_def setTimeout_def)
  have b: "Block p' (bs\<lparr>cameraMode := m\<rparr>) = Block p' bs" by (simp add: Block_def)
  have c: "step reset e (s\<lparr>block := (block s)\<lparr>cameraMode := m\<rparr>\<rparr>) =
       (step reset e s)\<lparr>block := (block (step reset e s))\<lparr>cameraMode := m\<rparr>\<rparr>"
    by (cases e)
       (simp_all add: commit_new checkbox_onChange_def setAutoRotate_def resetCamera_def
          call_reset_def split: option.splits)
  from a b c show ?thesis by blast
qed

theorem cameraMode_constant_unread_witness:
  "cameraMode (block (run (\<lambda>c::unit. c)
       [CheckboxChange False, Advance 700, ControlsRefSet (Some ()), ClickReset, Advance 700,
        Rerender \<lparr>title = Some ''t'', description = None\<rparr>, Unmount]
       (mount \<lparr>title = None, description = None\<rparr> 0))) = ''orbit''"
  by (rule cameraMode_constant_unread [THEN conjunct1])

subsection \<open>The frame callback\<close>

text \<open>
  C8. With the flag set and a group in the reference, the callback leaves a group whose
  \<open>rotation.y\<close> is the old value plus \<open>delta * 0.5\<close> (in the numbers' own addition and
  multiplication) and whose \<open>rotation.x\<close>, \<open>rotation.z\<close>, position and scale are the old
  ones. With the flag unset, or an empty reference, the reference holds what it held.
\<close>

theorem useFrame_rotates_y_only:
  "(\<exists>g'. useFrame_callback ops True delta (Some g) = Some g'
        \<and> euler_y (group_rotation g') =
            num_add ops (euler_y (group_rotation g)) (num_mul ops delta (num_half ops))
        \<and> euler_x (group_rotation g') = euler_x (group_rotation g)
        \<and> euler_z (group_rotation g') = euler_z (group_rotation g)
        \<and> group_position g' = group_position g
        \<and> group_scale g' = group_scale g)
   \<and> useFrame_callback ops False delta meshRef = meshRef
   \<and> useFrame_callback ops flag delta None = None"
  by (simp add: useFrame_callback_def split: option.splits)

theorem useFrame_rotates_y_only_witness:
  "useFrame_callback \<lparr>num_add = (+), num_mul = (*), num_half = 0.5\<rparr> True (0.016::real)
     (Some \<lparr>group_position = (0, 0, 0), group_rotation = \<lparr>euler_x = 0, euler_y = 1, euler_z = 0\<rparr>,
            group_scale = (1.5, 1.5, 1.5)\<rparr>) =
     Some \<lparr>group_position = (0, 0, 0), group_rotation = \<lparr>euler_x = 0, euler_y = 1.008, euler_z = 0\<rparr>,
            group_scale = (1.5, 1.5, 1.5)\<rparr>"
  using useFrame_rotates_y_only
    [of "\<lparr>num_add = (+), num_mul = (*), num_half = 0.5\<rparr>" "0.016::real"
        "\<lparr>group_position = (0, 0, 0), group_rotation = \<lparr>euler_x = 0, euler_y = 1, euler_z = 0\<rparr>,
            group_scale = (1.5, 1.5, 1.5)\<rparr>"]
  by (auto simp: useFrame_callback_def)

subsection \<open>The initial flag\<close>

text \<open>
  C9. At mount the \<open>autoRotate\<close> cell is true: the box is checked, \<open>DuckModel\<close> is given
  \<open>autoRotate = true\<close>, and its frame callback rotates.
\<close>

theorem autoRotate_initially_true:
  "autoRotate (block (mount p t0))
   \<and> checkbox_checked (Block p (block (mount p t0)))
   \<and> dp_autoRotate (duckModel (canvas_scene (Block p (block (mount p t0))))) = Some True
   \<and> frame_autoRotate (DuckModel (duckModel (canvas_scene (Block p (block (mount p t0))))))"
  by (simp add: mount_def useEffect_setup_def setTimeout_def Block_def DuckModel_def)

theorem autoRotate_initially_true_witness:
  "autoRotate (block (mount \<lparr>title = None, description = None\<rparr> 0 :: unit system))"
  by (rule autoRotate_initially_true [THEN conjunct1])

subsection \<open>The target origin\<close>

text \<open>
  C10. Every message the block ever posts has the target origin \<open>*\<close> and the one fixed
  content. So each context receives every message posted to it, whatever the origins of
  the contexts are, and what it receives is the same under any two assignments of origins.
\<close>

theorem posts_use_wildcard_origin:
  "(\<forall>m \<in> set (posted (browser (run reset evs (mount p t0)))).
       post_origin m = ''*''
       \<and> post_data m = \<lparr>msg_type = ''BLOCK_COMPLETION'',
                        msg_blockId = ''685da7c487fb8b8b70d865d2'', msg_completed = True\<rparr>)
   \<and> received origins t (posted (browser (run reset evs (mount p t0)))) =
       map post_data (filter (\<lambda>m. post_target m = t) (posted (browser (run reset evs (mount p t0)))))
   \<and> received origins t (posted (browser (run reset evs (mount p t0)))) =
       received origins' t (posted (browser (run reset evs (mount p t0))))"
proof -
  let ?ps = "posted (browser (run reset evs (mount p t0)))"
  have a: "\<forall>m \<in> set ?ps. post_origin m = ''*''
       \<and> post_data m = \<lparr>msg_type = ''BLOCK_COMPLETION'',
                        msg_blockId = ''685da7c487fb8b8b70d865d2'', msg_completed = True\<rparr>"
    using mount_posted_cases [of reset evs p t0] by (auto simp: completion_posts_def)
  have b: "received os t ?ps = map post_data (filter (\<lambda>m. post_target m = t) ?ps)" for os
  proof -
    from a have "filter (\<lambda>m. post_target m = t \<and> origin_accepts (post_origin m) (os t)) ?ps =
        filter (\<lambda>m. post_target m = t) ?ps"
      by (intro filter_cong) (auto simp: origin_accepts_def)
    then show ?thesis by (simp add: received_def)
  qed
  from a b [of origins] b [of origins'] show ?thesis by simp
qed

theorem posts_use_wildcard_origin_witness:
  "map post_origin (posted (browser (run (\<lambda>c::unit. c) [Advance 1000]
       (mount \<lparr>title = None, description = None\<rparr> 0)))) = [''*'', ''*'']
   \<and> received (\<lambda>t. if t = ParentWindow then ''https://host.example'' else ''https://block.example'')
        ParentWindow
        (posted (browser (run (\<lambda>c::unit. c) [Advance 1000]
          (mount \<lparr>title = None, description = None\<rparr> 0)))) =
      [\<lparr>msg_type = ''BLOCK_COMPLETION'', msg_blockId = ''685da7c487fb8b8b70d865d2'',
        msg_completed = True\<rparr>]"
  using posts_use_wildcard_origin
    [of "\<lambda>c::unit. c" "[Advance 1000]" "\<lparr>title = None, description = None\<rparr>" 0
        "\<lambda>t. if t = ParentWindow then ''https://host.example'' else ''https://block.example''"
        ParentWindow]
  by (simp add: mount_def useEffect_setup_def setTimeout_def advance_def fire_due_timers_def
        timer_callback_def postMessage_def)

end
